theory Spec2Isabelle
  imports
    Main
    "HOL-Library.Word"
    "HOL-Library.AList"
    "HOL-Library.List_Lexorder"
begin

unbundle bit_operations_syntax

section \<open>Python values and their text\<close>

text \<open>
  A Python string is a sequence of Unicode code points, here a list of natural numbers
  (a code point is at most \<open>0x10FFFF\<close>; nothing below needs that bound);
  \<open>str_of\<close> reads an ASCII literal as such a string. A census record is a
  \<^verbatim>\<open>Dict[str, Any]\<close>. The values that occur are \<^verbatim>\<open>None\<close>, booleans, integers and strings;
  every other object (a float such as a latitude, a list, ...) is represented by the
  text that \<^verbatim>\<open>str()\<close> returns for it, which is all the hasher reads of it. A dictionary
  is an association list read with \<^const>\<open>map_of\<close>; it is empty (falsy) exactly when the
  list is. The identifiers, statuses, times and digests that the ledger stores are
  kept as 8-bit strings.
\<close>

type_synonym pystr = "nat list"

definition str_of :: "string \<Rightarrow> pystr" where
  "str_of s = map of_char s"

datatype pyval = PyNone | PyBool bool | PyInt int | PyStr pystr | PyObj pystr

type_synonym pydict = "(pystr \<times> pyval) list"

definition digit_char :: "nat \<Rightarrow> char" where
  "digit_char n = ''0123456789abcdef'' ! n"

fun str_nat :: "nat \<Rightarrow> string" where
  "str_nat n = (if n < 10 then [digit_char n] else str_nat (n div 10) @ [digit_char (n mod 10)])"

declare str_nat.simps [simp del]

fun hex_nat :: "nat \<Rightarrow> string" where
  "hex_nat n = (if n < 16 then [digit_char n] else hex_nat (n div 16) @ [digit_char (n mod 16)])"

declare hex_nat.simps [simp del]

definition str_int :: "int \<Rightarrow> string" where
  "str_int i = (if i < 0 then ''-'' @ str_nat (nat (- i)) else str_nat (nat i))"

text \<open>\<^verbatim>\<open>str(value)\<close>.\<close>

fun py_str :: "pyval \<Rightarrow> pystr" where
  "py_str PyNone = str_of ''None''"
| "py_str (PyBool b) = str_of (if b then ''True'' else ''False'')"
| "py_str (PyInt i) = str_of (str_int i)"
| "py_str (PyStr s) = s"
| "py_str (PyObj s) = s"

text \<open>\<^verbatim>\<open>s.zfill(w)\<close> for a string of digits, and the format specifications
  \<^verbatim>\<open>{:08x}\<close> (sign-aware zero padding) and \<^verbatim>\<open>{:04x}\<close>.\<close>

definition zfill :: "nat \<Rightarrow> string \<Rightarrow> string" where
  "zfill w s = replicate (w - length s) (CHR ''0'') @ s"

definition format_08x :: "int \<Rightarrow> string" where
  "format_08x i = (if i < 0 then ''-'' @ zfill 7 (hex_nat (nat (- i))) else zfill 8 (hex_nat (nat i)))"

definition format_04x :: "nat \<Rightarrow> string" where
  "format_04x n = zfill 4 (hex_nat n)"

text \<open>\<^verbatim>\<open>str.upper()\<close> on ASCII text: the 26 small letters have a capital, every other
  character stays.\<close>

definition upper_char :: "char \<Rightarrow> char" where
  "upper_char c =
     (case map_of (zip ''abcdefghijklmnopqrstuvwxyz'' ''ABCDEFGHIJKLMNOPQRSTUVWXYZ'') c of
        None \<Rightarrow> c
      | Some u \<Rightarrow> u)"

definition upper :: "string \<Rightarrow> string" where
  "upper s = map upper_char s"

section \<open>The JSON encoder, as \<^verbatim>\<open>json.dumps(d, sort_keys=True, separators=(',', ':'))\<close>
  runs on a dictionary of strings\<close>

text \<open>
  \<^verbatim>\<open>ensure_ascii\<close> is left at its default, so the text is ASCII. The encoder replaces
  every code point that its pattern \<^verbatim>\<open>([\\"]|[^\ -~])\<close> matches: a backslash, a double
  quote, and whatever is outside the range from space to tilde. The replacement is looked
  up in the table \<^verbatim>\<open>ESCAPE_DCT\<close>; a code point without an entry becomes \<^verbatim>\<open>\uXXXX\<close> when
  it is below \<open>0x10000\<close>, and the two escapes of its surrogate pair otherwise:
  \<^verbatim>\<open>n -= 0x10000; s1 = 0xd800 | ((n >> 10) & 0x3ff); s2 = 0xdc00 | (n & 0x3ff)\<close>,
  where each \<^verbatim>\<open>|\<close> joins disjoint bits and is an addition.
\<close>

definition backslash :: char where
  "backslash = CHR 0x5C"

definition dquote :: char where
  "dquote = CHR 0x22"

definition ESCAPE_DCT :: "(nat \<times> string) list" where
  "ESCAPE_DCT =
     [(0x5C, [backslash, backslash]),
      (0x22, [backslash, dquote]),
      (0x08, [backslash, CHR ''b'']),
      (0x0C, [backslash, CHR ''f'']),
      (0x0A, [backslash, CHR ''n'']),
      (0x0D, [backslash, CHR ''r'']),
      (0x09, [backslash, CHR ''t''])]"

definition needs_escape :: "nat \<Rightarrow> bool" where
  "needs_escape n = (n = 0x5C \<or> n = 0x22 \<or> \<not> (0x20 \<le> n \<and> n \<le> 0x7E))"

definition high_surrogate :: "nat \<Rightarrow> nat" where
  "high_surrogate n = 0xD800 + ((n - 0x10000) div 1024) mod 1024"

definition low_surrogate :: "nat \<Rightarrow> nat" where
  "low_surrogate n = 0xDC00 + (n - 0x10000) mod 1024"

definition json_escape_char :: "nat \<Rightarrow> string" where
  "json_escape_char n =
     (if needs_escape n
      then (case map_of ESCAPE_DCT n of
              Some s \<Rightarrow> s
            | None \<Rightarrow>
                if n < 0x10000 then [backslash, CHR ''u''] @ format_04x n
                else [backslash, CHR ''u''] @ format_04x (high_surrogate n)
                     @ [backslash, CHR ''u''] @ format_04x (low_surrogate n))
      else [char_of n])"

definition py_encode_basestring_ascii :: "pystr \<Rightarrow> string" where
  "py_encode_basestring_ascii s = [dquote] @ concat (map json_escape_char s) @ [dquote]"

definition json_item :: "pystr \<times> pystr \<Rightarrow> string" where
  "json_item kv = py_encode_basestring_ascii (fst kv) @ '':'' @ py_encode_basestring_ascii (snd kv)"

fun join :: "string \<Rightarrow> string list \<Rightarrow> string" where
  "join sep [] = []"
| "join sep [x] = x"
| "join sep (x # y # ys) = x @ sep @ join sep (y # ys)"

definition json_dumps :: "(pystr \<times> pystr) list \<Rightarrow> string" where
  "json_dumps d = ''{'' @ join '','' (map json_item (sort_key fst d)) @ ''}''"



section \<open>SHA-256 (FIPS 180-4), as \<^verbatim>\<open>hashlib.sha256(data).hexdigest()\<close>\<close>

type_synonym u32 = "32 word"

definition rotr :: "nat \<Rightarrow> u32 \<Rightarrow> u32" where
  "rotr n x = (drop_bit n x) OR (push_bit (32 - n) x)"

text \<open>
  The constants of the standard are roots of primes: the round constants are the first
  32 bits of the fractional parts of the cube roots of the first 64 primes, the initial
  hash value the same of the square roots of the first 8. \<open>floor_root k n\<close> is the
  largest \<open>r\<close> below \<open>2 ^ 40\<close> with \<open>r ^ k \<le> n\<close>, found one bit after the other.
\<close>

definition first_primes :: "nat list" where
  "first_primes =
     [2, 3, 5, 7, 11, 13, 17, 19, 23, 29, 31, 37, 41, 43, 47, 53,
      59, 61, 67, 71, 73, 79, 83, 89, 97, 101, 103, 107, 109, 113, 127, 131,
      137, 139, 149, 151, 157, 163, 167, 173, 179, 181, 191, 193, 197, 199, 211, 223,
      227, 229, 233, 239, 241, 251, 257, 263, 269, 271, 277, 281, 283, 293, 307, 311]"

definition floor_root :: "nat \<Rightarrow> nat \<Rightarrow> nat" where
  "floor_root k n = foldl (\<lambda>r b. if (r + 2 ^ b) ^ k \<le> n then r + 2 ^ b else r) 0 (rev [0..<40])"

definition K256 :: "u32 list" where
  "K256 = map (\<lambda>p. word_of_nat (floor_root 3 (p * 2 ^ 96))) first_primes"

definition H256 :: "u32 list" where
  "H256 = map (\<lambda>p. word_of_nat (floor_root 2 (p * 2 ^ 64))) (take 8 first_primes)"

definition Ch :: "u32 \<Rightarrow> u32 \<Rightarrow> u32 \<Rightarrow> u32" where
  "Ch x y z = (x AND y) XOR (NOT x AND z)"

definition Maj :: "u32 \<Rightarrow> u32 \<Rightarrow> u32 \<Rightarrow> u32" where
  "Maj x y z = (x AND y) XOR (x AND z) XOR (y AND z)"

definition Sigma0 :: "u32 \<Rightarrow> u32" where
  "Sigma0 x = rotr 2 x XOR rotr 13 x XOR rotr 22 x"

definition Sigma1 :: "u32 \<Rightarrow> u32" where
  "Sigma1 x = rotr 6 x XOR rotr 11 x XOR rotr 25 x"

definition sigma0 :: "u32 \<Rightarrow> u32" where
  "sigma0 x = rotr 7 x XOR rotr 18 x XOR drop_bit 3 x"

definition sigma1 :: "u32 \<Rightarrow> u32" where
  "sigma1 x = rotr 17 x XOR rotr 19 x XOR drop_bit 10 x"

text \<open>The \<open>k\<close> bytes of \<open>n\<close>, most significant first.\<close>

definition be_bytes :: "nat \<Rightarrow> nat \<Rightarrow> nat list" where
  "be_bytes k n = map (\<lambda>i. (n div 256 ^ (k - 1 - i)) mod 256) [0..<k]"

text \<open>Padding: the byte \<open>0x80\<close>, zeros up to 56 modulo 64, the bit length on 8 bytes.\<close>

definition sha_pad :: "nat list \<Rightarrow> nat list" where
  "sha_pad m = m @ [128] @ replicate ((119 - length m mod 64) mod 64) 0 @ be_bytes 8 (8 * length m)"

fun words_of :: "nat list \<Rightarrow> u32 list" where
  "words_of (a # b # c # d # r) = word_of_nat (((a * 256 + b) * 256 + c) * 256 + d) # words_of r"
| "words_of _ = []"

text \<open>The blocks of 16 words; the first argument bounds their number.\<close>

fun blocks :: "nat \<Rightarrow> u32 list \<Rightarrow> u32 list list" where
  "blocks 0 ws = []"
| "blocks (Suc n) ws = (if ws = [] then [] else take 16 ws # blocks n (drop 16 ws))"

text \<open>The message schedule: \<open>n\<close> more words after those of \<open>w\<close>.\<close>

fun schedule :: "nat \<Rightarrow> u32 list \<Rightarrow> u32 list" where
  "schedule 0 w = w"
| "schedule (Suc n) w =
     schedule n (w @ [sigma1 (w ! (length w - 2)) + w ! (length w - 7)
                     + sigma0 (w ! (length w - 15)) + w ! (length w - 16)])"

definition sha_round :: "u32 list \<Rightarrow> (u32 \<times> u32) \<Rightarrow> u32 list" where
  "sha_round s kw =
     (let a = s ! 0; b = s ! 1; c = s ! 2; d = s ! 3; e = s ! 4; f = s ! 5; g = s ! 6; h = s ! 7;
          t1 = h + Sigma1 e + Ch e f g + fst kw + snd kw;
          t2 = Sigma0 a + Maj a b c
      in [t1 + t2, a, b, c, d + t1, e, f, g])"

definition compress :: "u32 list \<Rightarrow> u32 list \<Rightarrow> u32 list" where
  "compress hs block = map2 (+) hs (foldl sha_round hs (zip K256 (schedule 48 block)))"

definition hex_u32 :: "u32 \<Rightarrow> string" where
  "hex_u32 w = map (\<lambda>i. digit_char ((unat w div 16 ^ (7 - i)) mod 16)) [0..<8]"

definition sha256_hexdigest :: "nat list \<Rightarrow> string" where
  "sha256_hexdigest m =
     (let ws = words_of (sha_pad m)
      in concat (map hex_u32 (foldl compress H256 (blocks (length ws) ws))))"

text \<open>\<^verbatim>\<open>s.encode('utf-8')\<close> of the JSON text, which is ASCII and kept as an 8-bit string:
  one byte for a character below 128 (two for the others that such a string can hold).\<close>

definition utf8_char :: "char \<Rightarrow> nat list" where
  "utf8_char c = (let n = of_char c in if n < 128 then [n] else [192 + n div 64, 128 + n mod 64])"

definition encode_utf8 :: "string \<Rightarrow> nat list" where
  "encode_utf8 s = concat (map utf8_char s)"


section \<open>Canonical Hasher\<close>

definition hashable_fields :: "pystr list" where
  "hashable_fields = map str_of
     [''record_id'', ''household_id'', ''name'', ''age'', ''sex'', ''relation'',
      ''caste'', ''income'', ''region'', ''district'', ''state'', ''pin_code'',
      ''latitude'', ''longitude'', ''welfare_score'', ''ration_card_type'',
      ''scheme_enrollment_count'', ''employment_status'', ''occupation_category'',
      ''sector'', ''housing_type'', ''water_source'', ''toilet_access'',
      ''cooking_fuel'', ''internet_access'', ''household_size'',
      ''parent_id'', ''spouse_id'']"

text \<open>The three branches of the conversion; the last two both call \<^verbatim>\<open>str\<close>.\<close>

definition is_number :: "pyval \<Rightarrow> bool" where
  "is_number v = (case v of PyBool _ \<Rightarrow> True | PyInt _ \<Rightarrow> True | _ \<Rightarrow> False)"

definition canonical_value :: "pyval \<Rightarrow> pystr" where
  "canonical_value v = (if v = PyNone then [] else if is_number v then py_str v else py_str v)"


text \<open>One turn of the loop over the sorted field names: \<^verbatim>\<open>canonical[field] = ...\<close> when
  the field is in the record.\<close>

definition canonical_step :: "pydict \<Rightarrow> (pystr \<times> pystr) list \<Rightarrow> pystr \<Rightarrow> (pystr \<times> pystr) list" where
  "canonical_step record canonical field =
     (case map_of record field of
        None \<Rightarrow> canonical
      | Some v \<Rightarrow> AList.update field (canonical_value v) canonical)"

definition build_canonical :: "pystr list \<Rightarrow> pydict \<Rightarrow> (pystr \<times> pystr) list" where
  "build_canonical fields record = foldl (canonical_step record) [] fields"

definition canonical_json :: "pydict \<Rightarrow> string" where
  "canonical_json record = json_dumps (build_canonical (sort hashable_fields) record)"

definition compute_record_hash :: "pydict \<Rightarrow> string" where
  "compute_record_hash record = sha256_hexdigest (encode_utf8 (canonical_json record))"

definition verify_record_hash :: "pydict \<Rightarrow> string \<Rightarrow> bool" where
  "verify_record_hash record expected_hash = (compute_record_hash record = expected_hash)"

section \<open>Data model of the ledger\<close>

datatype RecordStatus = PENDING_REVIEW | APPROVED | REJECTED | NEEDS_VERIFICATION | PRIORITY

text \<open>The members of the enumeration in definition order, and \<^verbatim>\<open>e.value\<close>.\<close>

definition RecordStatus_members :: "RecordStatus list" where
  "RecordStatus_members = [PENDING_REVIEW, APPROVED, REJECTED, NEEDS_VERIFICATION, PRIORITY]"

fun status_value :: "RecordStatus \<Rightarrow> string" where
  "status_value PENDING_REVIEW = ''PENDING_REVIEW''"
| "status_value APPROVED = ''APPROVED''"
| "status_value REJECTED = ''REJECTED''"
| "status_value NEEDS_VERIFICATION = ''NEEDS_VERIFICATION''"
| "status_value PRIORITY = ''PRIORITY''"

record LedgerRecord =
  record_id :: string
  data_hash :: string
  owner_household_id :: string
  current_status :: string
  flag_status :: string
  created_by :: string
  created_at :: string
  last_updated_by :: string
  last_updated_at :: string
  version :: int
  previous_hash :: "string option"

text \<open>The fields of the two other dataclasses that share a name with one of
  \<open>LedgerRecord\<close> carry a prefix.\<close>

record IntegrityResult =
  res_record_id :: string
  verified :: bool
  on_chain_hash :: "string option"
  provided_hash :: "string option"
  res_current_status :: "string option"
  res_last_updated_at :: "string option"
  error :: "string option"
  timestamp :: string

record AccessLogEntry =
  log_id :: string
  log_record_id :: string
  accessor_id :: string
  accessor_msp :: string
  action_type :: string
  details :: string
  log_timestamp :: string
  tx_id :: string

text \<open>
  The clock is read up to three times in one call: \<open>now_iso\<close> is the text of
  \<^verbatim>\<open>datetime.now(timezone.utc).isoformat()\<close> bound to \<^verbatim>\<open>now\<close>, \<open>tx_stamp\<close> the text of
  \<^verbatim>\<open>datetime.now(timezone.utc).strftime('%Y%m%d%H%M%S')\<close> in \<^verbatim>\<open>_generate_tx_id\<close>, and
  \<open>result_iso\<close> the reading of \<^verbatim>\<open>IntegrityResult.__post_init__\<close>.
\<close>

record clock =
  now_iso :: string
  tx_stamp :: string
  result_iso :: string

text \<open>\<^verbatim>\<open>__post_init__\<close>: an empty timestamp is replaced by the time of construction.\<close>

definition post_init :: "clock \<Rightarrow> IntegrityResult \<Rightarrow> IntegrityResult" where
  "post_init clk r = (if timestamp r = [] then r\<lparr>timestamp := result_iso clk\<rparr> else r)"

text \<open>Every exception the modelled code raises is a \<^verbatim>\<open>ValueError\<close> with its message.\<close>

datatype error = ValueError string

section \<open>Ledger Store: \<^verbatim>\<open>MockLedger\<close>\<close>

text \<open>
  \<open>records\<close> is the dictionary from record id to record, in insertion order;
  a call returns its outcome together with the ledger it leaves behind, so that
  what a raising call has already written would be seen. \<open>msp\<close> is the module
  constant \<^verbatim>\<open>FABRIC_MSP_ID\<close>, read from the environment when the module is loaded.
\<close>

record MockLedger =
  records :: "(string \<times> LedgerRecord) list"
  access_logs :: "AccessLogEntry list"
  tx_counter :: int

definition MockLedger_init :: MockLedger where
  "MockLedger_init = \<lparr>records = [], access_logs = [], tx_counter = 0\<rparr>"

definition generate_tx_id :: "clock \<Rightarrow> MockLedger \<Rightarrow> string \<times> MockLedger" where
  "generate_tx_id clk L =
     (let L' = L\<lparr>tx_counter := tx_counter L + 1\<rparr>
      in (''tx_'' @ format_08x (tx_counter L') @ ''_'' @ tx_stamp clk, L'))"

text \<open>The two constructor calls of the Store: the record of \<^verbatim>\<open>initialize_record\<close>, and
  the log entry every operation appends, whose id counts the entries already there.\<close>

definition new_record :: "string \<Rightarrow> string \<Rightarrow> string \<Rightarrow> string \<Rightarrow> string \<Rightarrow> string \<Rightarrow> LedgerRecord" where
  "new_record rid dhash household_id flag user_id now =
     \<lparr>record_id = rid, data_hash = dhash, owner_household_id = household_id,
      current_status = status_value PENDING_REVIEW, flag_status = flag,
      created_by = user_id, created_at = now,
      last_updated_by = user_id, last_updated_at = now,
      version = 1, previous_hash = None\<rparr>"

definition new_entry ::
  "nat \<Rightarrow> string \<Rightarrow> string \<Rightarrow> string \<Rightarrow> string \<Rightarrow> string \<Rightarrow> string \<Rightarrow> string \<Rightarrow> AccessLogEntry" where
  "new_entry n rid accessor msp action det ts tx =
     \<lparr>log_id = ''LOG_'' @ rid @ ''_'' @ str_nat n,
      log_record_id = rid, accessor_id = accessor, accessor_msp = msp,
      action_type = action, details = det, log_timestamp = ts, tx_id = tx\<rparr>"

definition log_entry ::
  "MockLedger \<Rightarrow> string \<Rightarrow> string \<Rightarrow> string \<Rightarrow> string \<Rightarrow> string \<Rightarrow> string \<Rightarrow> string \<Rightarrow> AccessLogEntry" where
  "log_entry L rid accessor msp action det ts tx =
     new_entry (length (access_logs L)) rid accessor msp action det ts tx"

definition append_log :: "AccessLogEntry \<Rightarrow> MockLedger \<Rightarrow> MockLedger" where
  "append_log e L = L\<lparr>access_logs := access_logs L @ [e]\<rparr>"

definition initialize_record ::
  "string \<Rightarrow> clock \<Rightarrow> MockLedger \<Rightarrow> string \<Rightarrow> string \<Rightarrow> string \<Rightarrow> string \<Rightarrow> string
     \<Rightarrow> (error + string) \<times> MockLedger" where
  "initialize_record msp clk L rid dhash household_id flag user_id =
     (if rid \<in> fst ` set (records L)
      then (Inl (ValueError (''Record '' @ rid @ '' already exists on ledger'')), L)
      else
        let now = now_iso clk;
            L1 = L\<lparr>records := AList.update rid
                   (new_record rid dhash household_id flag user_id now) (records L)\<rparr>;
            (tx, L2) = generate_tx_id clk L1;
            L3 = append_log (log_entry L2 rid user_id msp ''INITIALIZE''
                               ''Record initialized on ledger'' now tx) L2
        in (Inr tx, L3))"

text \<open>The mutation of the stored record. \<^verbatim>\<open>if new_hash:\<close> tests the truth value of an
  optional string: \<^verbatim>\<open>None\<close> and the empty string are both false.\<close>

definition review_update :: "string \<Rightarrow> string \<Rightarrow> string \<Rightarrow> string option \<Rightarrow> LedgerRecord \<Rightarrow> LedgerRecord" where
  "review_update reviewer_id decision now new_hash r =
     (let r1 = r\<lparr>current_status := decision, last_updated_by := reviewer_id,
                 last_updated_at := now, version := version r + 1\<rparr>
      in case new_hash of
           None \<Rightarrow> r1
         | Some h \<Rightarrow>
             if h \<noteq> [] then r1\<lparr>previous_hash := Some (data_hash r1), data_hash := h\<rparr> else r1)"

definition review_record ::
  "string \<Rightarrow> clock \<Rightarrow> MockLedger \<Rightarrow> string \<Rightarrow> string \<Rightarrow> string \<Rightarrow> string option
     \<Rightarrow> (error + string) \<times> MockLedger" where
  "review_record msp clk L rid reviewer_id decision new_hash =
     (case map_of (records L) rid of
        None \<Rightarrow> (Inl (ValueError (''Record '' @ rid @ '' not found on ledger'')), L)
      | Some r \<Rightarrow>
          let now = now_iso clk;
              L1 = L\<lparr>records := AList.update rid
                     (review_update reviewer_id decision now new_hash r) (records L)\<rparr>;
              (tx, L2) = generate_tx_id clk L1;
              L3 = append_log (log_entry L2 rid reviewer_id msp ''REVIEW''
                                 (''Decision: '' @ decision) now tx) L2
          in (Inr tx, L3))"

definition verify_integrity ::
  "string \<Rightarrow> clock \<Rightarrow> MockLedger \<Rightarrow> string \<Rightarrow> string \<Rightarrow> string \<Rightarrow> IntegrityResult \<times> MockLedger" where
  "verify_integrity msp clk L rid phash accessor =
     (case map_of (records L) rid of
        None \<Rightarrow>
          (post_init clk
             \<lparr>res_record_id = rid, verified = False, on_chain_hash = None, provided_hash = None,
              res_current_status = None, res_last_updated_at = None,
              error = Some ''Record not found on ledger'', timestamp = []\<rparr>, L)
      | Some r \<Rightarrow>
          let is_valid = (data_hash r = phash);
              now = now_iso clk;
              (tx, L1) = generate_tx_id clk L;
              L2 = append_log (log_entry L rid accessor msp ''VERIFY''
                                 (''Integrity check: '' @ (if is_valid then ''PASSED'' else ''FAILED''))
                                 now tx) L1
          in (post_init clk
                \<lparr>res_record_id = rid, verified = is_valid, on_chain_hash = Some (data_hash r),
                 provided_hash = Some phash, res_current_status = Some (current_status r),
                 res_last_updated_at = Some (last_updated_at r), error = None, timestamp = []\<rparr>,
              L2))"

definition log_access ::
  "string \<Rightarrow> clock \<Rightarrow> MockLedger \<Rightarrow> string \<Rightarrow> string \<Rightarrow> string \<Rightarrow> string \<times> MockLedger" where
  "log_access msp clk L rid accessor reason =
     (let now = now_iso clk;
          (tx, L1) = generate_tx_id clk L;
          L2 = append_log (log_entry L1 rid accessor msp ''ACCESS'' reason now tx) L1
      in (tx, L2))"

definition get_record :: "MockLedger \<Rightarrow> string \<Rightarrow> LedgerRecord option" where
  "get_record L rid = map_of (records L) rid"

definition get_access_logs :: "MockLedger \<Rightarrow> string \<Rightarrow> AccessLogEntry list" where
  "get_access_logs L rid = filter (\<lambda>log. log_record_id log = rid) (access_logs L)"

definition query_by_status :: "MockLedger \<Rightarrow> string \<Rightarrow> LedgerRecord list" where
  "query_by_status L status = filter (\<lambda>r. current_status r = status) (map snd (records L))"

definition query_by_flag_status :: "MockLedger \<Rightarrow> string \<Rightarrow> LedgerRecord list" where
  "query_by_flag_status L fs = filter (\<lambda>r. flag_status r = fs) (map snd (records L))"

section \<open>Ledger Facade: \<^verbatim>\<open>BlockchainService\<close>\<close>

text \<open>
  The Facade's operations that the statements below are about: review and verify.
  \<^verbatim>\<open>anchor_record\<close> computes \<^verbatim>\<open>compute_record_hash(record)\<close> and hands it to the Store's
  \<^verbatim>\<open>initialize_record\<close> as \<^verbatim>\<open>data_hash\<close>; an anchored record is, below, a record created with
  the hash of its content.
\<close>

record BlockchainService =
  ledger :: MockLedger
  initialized :: bool

definition BlockchainService_init :: BlockchainService where
  "BlockchainService_init = \<lparr>ledger = MockLedger_init, initialized = False\<rparr>"

definition initialize :: "BlockchainService \<Rightarrow> BlockchainService" where
  "initialize svc = (if initialized svc then svc else svc\<lparr>initialized := True\<rparr>)"

text \<open>\<^verbatim>\<open>[e.value for e in RecordStatus if e != RecordStatus.PENDING_REVIEW]\<close>\<close>

definition valid_decisions :: "string list" where
  "valid_decisions = map status_value (filter (\<lambda>e. e \<noteq> PENDING_REVIEW) RecordStatus_members)"

text \<open>The dictionary that \<^verbatim>\<open>review_record\<close> returns.\<close>

record review_result =
  rr_tx_id :: string
  rr_record_id :: string
  new_status :: string
  new_hash :: "string option"

text \<open>\<^verbatim>\<open>if updated_record:\<close> is false for \<^verbatim>\<open>None\<close> and for the empty dictionary.\<close>

definition hash_of_update :: "pydict option \<Rightarrow> string option" where
  "hash_of_update updated_record =
     (case updated_record of
        None \<Rightarrow> None
      | Some r \<Rightarrow> if r \<noteq> [] then Some (compute_record_hash r) else None)"

definition service_review_record ::
  "string \<Rightarrow> clock \<Rightarrow> BlockchainService \<Rightarrow> string \<Rightarrow> string \<Rightarrow> string \<Rightarrow> pydict option
     \<Rightarrow> (error + review_result) \<times> BlockchainService" where
  "service_review_record msp clk svc rid reviewer_id decision updated_record =
     (let svc1 = initialize svc;
          decision' = upper decision
      in if decision' \<notin> set valid_decisions
         then (Inl (ValueError (''Invalid decision: '' @ decision')), svc1)
         else
           let h = hash_of_update updated_record;
               (res, L') = review_record msp clk (ledger svc1) rid reviewer_id decision' h
           in (case res of
                 Inl e \<Rightarrow> (Inl e, svc1\<lparr>ledger := L'\<rparr>)
               | Inr tx \<Rightarrow>
                   (Inr \<lparr>rr_tx_id = tx, rr_record_id = rid, new_status = decision', new_hash = h\<rparr>,
                    svc1\<lparr>ledger := L'\<rparr>)))"


section \<open>The Store with its objects\<close>

text \<open>
  In Python the dictionary \<^verbatim>\<open>records\<close> and the list \<^verbatim>\<open>access_logs\<close> hold references to
  \<^verbatim>\<open>LedgerRecord\<close> and \<^verbatim>\<open>AccessLogEntry\<close> objects, and what a read returns is a
  reference too. To tell a reference from a copy, this second model of the Store keeps
  the objects in two arrays and lets the collections hold addresses (indices) into them:
  a new object is put at the end, \<^verbatim>\<open>review_record\<close> writes the fields of the object it
  has looked up, and the reads return addresses. \<open>snapshot\<close> reads the object ledger as a
  ledger of values.
\<close>

record ObjectLedger =
  ledger_objects :: "LedgerRecord list"
  log_objects :: "AccessLogEntry list"
  records_refs :: "(string \<times> nat) list"
  access_logs_refs :: "nat list"
  obj_tx_counter :: int

definition ObjectLedger_init :: ObjectLedger where
  "ObjectLedger_init =
     \<lparr>ledger_objects = [], log_objects = [], records_refs = [], access_logs_refs = [],
      obj_tx_counter = 0\<rparr>"

definition deref :: "'a list \<Rightarrow> nat \<Rightarrow> 'a option" where
  "deref objs a = (if a < length objs then Some (objs ! a) else None)"

definition snapshot :: "ObjectLedger \<Rightarrow> MockLedger" where
  "snapshot H =
     \<lparr>records = List.map_filter (\<lambda>(k, a). map_option (Pair k) (deref (ledger_objects H) a))
                  (records_refs H),
      access_logs = List.map_filter (deref (log_objects H)) (access_logs_refs H),
      tx_counter = obj_tx_counter H\<rparr>"

text \<open>Every reference points to an object, and no two places hold the same reference.\<close>

definition wf_objects :: "ObjectLedger \<Rightarrow> bool" where
  "wf_objects H =
     (list_all (\<lambda>a. a < length (ledger_objects H)) (map snd (records_refs H))
      \<and> distinct (map snd (records_refs H))
      \<and> distinct (map fst (records_refs H))
      \<and> list_all (\<lambda>a. a < length (log_objects H)) (access_logs_refs H)
      \<and> distinct (access_logs_refs H))"

text \<open>\<^verbatim>\<open>self.access_logs.append(AccessLogEntry(...))\<close> with a new transaction id.\<close>

definition obj_append_log ::
  "string \<Rightarrow> clock \<Rightarrow> string \<Rightarrow> string \<Rightarrow> string \<Rightarrow> string \<Rightarrow> ObjectLedger \<Rightarrow> string \<times> ObjectLedger" where
  "obj_append_log msp clk rid accessor action det H =
     (let c = obj_tx_counter H + 1;
          tx = ''tx_'' @ format_08x c @ ''_'' @ tx_stamp clk;
          e = new_entry (length (access_logs_refs H)) rid accessor msp action det (now_iso clk) tx
      in (tx, H\<lparr>log_objects := log_objects H @ [e],
                access_logs_refs := access_logs_refs H @ [length (log_objects H)],
                obj_tx_counter := c\<rparr>))"

definition obj_initialize_record ::
  "string \<Rightarrow> clock \<Rightarrow> ObjectLedger \<Rightarrow> string \<Rightarrow> string \<Rightarrow> string \<Rightarrow> string \<Rightarrow> string
     \<Rightarrow> (error + string) \<times> ObjectLedger" where
  "obj_initialize_record msp clk H rid dhash household_id flag user_id =
     (if rid \<in> fst ` set (records_refs H)
      then (Inl (ValueError (''Record '' @ rid @ '' already exists on ledger'')), H)
      else
        let H1 = H\<lparr>ledger_objects := ledger_objects H
                       @ [new_record rid dhash household_id flag user_id (now_iso clk)],
                    records_refs := AList.update rid (length (ledger_objects H)) (records_refs H)\<rparr>;
            (tx, H2) = obj_append_log msp clk rid user_id ''INITIALIZE''
                         ''Record initialized on ledger'' H1
        in (Inr tx, H2))"

text \<open>\<^verbatim>\<open>record = self.records[record_id]\<close> is a reference; the assignments to its fields
  change the object it points to.\<close>

definition obj_review_record ::
  "string \<Rightarrow> clock \<Rightarrow> ObjectLedger \<Rightarrow> string \<Rightarrow> string \<Rightarrow> string \<Rightarrow> string option
     \<Rightarrow> (error + string) \<times> ObjectLedger" where
  "obj_review_record msp clk H rid reviewer_id decision nh =
     (case map_of (records_refs H) rid of
        None \<Rightarrow> (Inl (ValueError (''Record '' @ rid @ '' not found on ledger'')), H)
      | Some a \<Rightarrow>
          let H1 = H\<lparr>ledger_objects := (ledger_objects H)
                         [a := review_update reviewer_id decision (now_iso clk) nh
                                 (ledger_objects H ! a)]\<rparr>;
              (tx, H2) = obj_append_log msp clk rid reviewer_id ''REVIEW''
                           (''Decision: '' @ decision) H1
          in (Inr tx, H2))"

text \<open>The reads: \<^verbatim>\<open>self.records.get(record_id)\<close> is the reference in the dictionary or
  \<^verbatim>\<open>None\<close>; the three list comprehensions build a new list of the references they select.\<close>

definition obj_get_record :: "ObjectLedger \<Rightarrow> string \<Rightarrow> nat option" where
  "obj_get_record H rid = map_of (records_refs H) rid"

definition selects :: "'a list \<Rightarrow> ('a \<Rightarrow> bool) \<Rightarrow> nat \<Rightarrow> bool" where
  "selects objs P a = (case deref objs a of None \<Rightarrow> False | Some x \<Rightarrow> P x)"

definition obj_get_access_logs :: "ObjectLedger \<Rightarrow> string \<Rightarrow> nat list" where
  "obj_get_access_logs H rid =
     filter (selects (log_objects H) (\<lambda>log. log_record_id log = rid)) (access_logs_refs H)"

definition obj_query_by_status :: "ObjectLedger \<Rightarrow> string \<Rightarrow> nat list" where
  "obj_query_by_status H status =
     filter (selects (ledger_objects H) (\<lambda>r. current_status r = status)) (map snd (records_refs H))"

definition obj_query_by_flag_status :: "ObjectLedger \<Rightarrow> string \<Rightarrow> nat list" where
  "obj_query_by_flag_status H fs =
     filter (selects (ledger_objects H) (\<lambda>r. flag_status r = fs)) (map snd (records_refs H))"

text \<open>A caller that holds a reference assigns to fields of the object: \<open>upd\<close> is the
  change of the fields.\<close>

definition write_record :: "ObjectLedger \<Rightarrow> nat \<Rightarrow> (LedgerRecord \<Rightarrow> LedgerRecord) \<Rightarrow> ObjectLedger" where
  "write_record H a upd =
     (if a < length (ledger_objects H)
      then H\<lparr>ledger_objects := (ledger_objects H)[a := upd (ledger_objects H ! a)]\<rparr>
      else H)"

definition write_log :: "ObjectLedger \<Rightarrow> nat \<Rightarrow> (AccessLogEntry \<Rightarrow> AccessLogEntry) \<Rightarrow> ObjectLedger" where
  "write_log H a upd =
     (if a < length (log_objects H)
      then H\<lparr>log_objects := (log_objects H)[a := upd (log_objects H ! a)]\<rparr>
      else H)"

text \<open>The Facade's reads copy: \<^verbatim>\<open>asdict\<close> builds a dictionary of the field values.\<close>

definition service_get_ledger_record :: "ObjectLedger \<Rightarrow> string \<Rightarrow> LedgerRecord option" where
  "service_get_ledger_record H rid =
     (case obj_get_record H rid of None \<Rightarrow> None | Some a \<Rightarrow> deref (ledger_objects H) a)"

definition service_get_access_logs :: "ObjectLedger \<Rightarrow> string \<Rightarrow> AccessLogEntry list" where
  "service_get_access_logs H rid =
     List.map_filter (deref (log_objects H)) (obj_get_access_logs H rid)"

section \<open>Runs of the Store\<close>






section \<open>Example states\<close>

definition ex_clock :: clock where
  "ex_clock = \<lparr>now_iso = ''2024-01-01T00:00:00+00:00'', tx_stamp = ''20240101000000'',
               result_iso = ''2024-01-01T00:00:01+00:00''\<rparr>"

definition ex_content :: pydict where
  "ex_content = [(str_of ''record_id'', PyStr (str_of ''R1'')), (str_of ''name'', PyStr (str_of ''A'')),
                 (str_of ''income'', PyInt 1000)]"

text \<open>The ledger after record \<open>R1\<close> has been anchored with \<open>ex_content\<close> by user \<open>u1\<close>.\<close>

definition ex_ledger :: MockLedger where
  "ex_ledger = snd (initialize_record ''StateMSP'' ex_clock MockLedger_init ''R1''
                      (compute_record_hash ex_content) ''H1'' ''NORMAL'' ''u1'')"

definition ex_record :: LedgerRecord where
  "ex_record =
     \<lparr>record_id = ''R1'', data_hash = compute_record_hash ex_content,
      owner_household_id = ''H1'', current_status = ''PENDING_REVIEW'', flag_status = ''NORMAL'',
      created_by = ''u1'', created_at = ''2024-01-01T00:00:00+00:00'',
      last_updated_by = ''u1'', last_updated_at = ''2024-01-01T00:00:00+00:00'',
      version = 1, previous_hash = None\<rparr>"

text \<open>The same ledger after reviewer \<open>u2\<close> has approved \<open>R1\<close> without a correction.\<close>

definition ex_approved :: MockLedger where
  "ex_approved = snd (review_record ''StateMSP'' ex_clock ex_ledger ''R1'' ''u2'' ''APPROVED'' None)"

definition ex_service :: BlockchainService where
  "ex_service = \<lparr>ledger = ex_ledger, initialized = True\<rparr>"




text \<open>The object ledger after \<open>R1\<close> has been created, and what a caller may do to the
  objects it has got from a read.\<close>

definition ex_objects :: ObjectLedger where
  "ex_objects = snd (obj_initialize_record ''StateMSP'' ex_clock ObjectLedger_init ''R1''
                       (compute_record_hash ex_content) ''H1'' ''NORMAL'' ''u1'')"

definition ex_tamper :: "LedgerRecord \<Rightarrow> LedgerRecord" where
  "ex_tamper r = r\<lparr>current_status := ''APPROVED'', data_hash := ''00''\<rparr>"

definition ex_tamper_log :: "AccessLogEntry \<Rightarrow> AccessLogEntry" where
  "ex_tamper_log e = e\<lparr>action_type := ''ACCESS'', accessor_id := ''nobody''\<rparr>"




section \<open>Evaluation of the examples\<close>

lemma format_08x_small:
  "format_08x 1 = ''00000001''" "format_08x 2 = ''00000002''" "format_08x 3 = ''00000003''"
  "format_08x 4 = ''00000004''"
  by code_simp+

lemma str_nat_small:
  "str_nat 0 = ''0''" "str_nat 1 = ''1''" "str_nat 2 = ''2''" "str_nat (Suc 0) = ''1''"
  "str_nat 3 = ''3''"
  by code_simp+

lemmas eval_defs =
  initialize_record_def new_record_def review_record_def verify_integrity_def log_access_def
  MockLedger_init_def Let_def generate_tx_id_def append_log_def log_entry_def new_entry_def
  format_08x_small str_nat_small ex_clock_def get_record_def get_access_logs_def
  review_update_def post_init_def

lemma ex_ledger_eq:
  "ex_ledger =
     \<lparr>records = [(''R1'', ex_record)],
      access_logs =
        [\<lparr>log_id = ''LOG_R1_0'', log_record_id = ''R1'', accessor_id = ''u1'',
          accessor_msp = ''StateMSP'', action_type = ''INITIALIZE'',
          details = ''Record initialized on ledger'',
          log_timestamp = ''2024-01-01T00:00:00+00:00'',
          tx_id = ''tx_00000001_20240101000000''\<rparr>],
      tx_counter = 1\<rparr>"
  by (simp add: ex_ledger_def ex_record_def eval_defs)

lemma get_record_ex_ledger: "get_record ex_ledger ''R1'' = Some ex_record"
  by (simp add: ex_ledger_eq get_record_def)

lemma upper_examples:
  "upper ''pending_review'' = ''PENDING_REVIEW''"
  "upper ''approved'' = ''APPROVED''"
  by (simp_all add: upper_def upper_char_def)

section \<open>Facts about the JSON text\<close>























lemma char_of_plain:
  assumes "(n :: nat) < 256"
  shows "of_char (char_of n) = n"
  using assms by simp













lemma canonical_step_alt:
  "canonical_step record canonical field =
     (case map_option canonical_value (map_of record field) of
        None \<Rightarrow> canonical
      | Some s \<Rightarrow> AList.update field s canonical)"
  by (simp add: canonical_step_def split: option.splits)














section \<open>Facts about the digest\<close>

lemma length_H256: "length H256 = 8"
  by (simp add: H256_def first_primes_def)

lemma length_sha_round: "length (sha_round s kw) = 8"
  by (simp add: sha_round_def Let_def)

lemma length_foldl_sha_round: "length s = 8 \<Longrightarrow> length (foldl sha_round s kws) = 8"
  by (induction kws arbitrary: s) (simp_all add: length_sha_round)

lemma length_compress: "length hs = 8 \<Longrightarrow> length (compress hs block) = 8"
  by (simp add: compress_def length_foldl_sha_round)

lemma length_foldl_compress: "length hs = 8 \<Longrightarrow> length (foldl compress hs bs) = 8"
  by (induction bs arbitrary: hs) (simp_all add: length_compress)

lemma length_concat_hex: "length (concat (map hex_u32 ws)) = 8 * length ws"
  by (induction ws) (simp_all add: hex_u32_def)

text \<open>A digest has 64 characters.\<close>

lemma length_sha256_hexdigest: "length (sha256_hexdigest m) = 64"
  by (simp add: sha256_hexdigest_def Let_def length_concat_hex length_foldl_compress length_H256)

lemma compute_record_hash_nonempty: "compute_record_hash record \<noteq> []"
  using length_sha256_hexdigest [of "encode_utf8 (canonical_json record)"]
  by (auto simp: compute_record_hash_def)




section \<open>Facts about the hash of a record\<close>







section \<open>Facts about the Store operations\<close>

lemma get_record_present: "get_record L rid = Some r \<Longrightarrow> rid \<in> fst ` set (records L)"
  unfolding get_record_def by (metis map_of_eq_None_iff option.distinct(1))

lemma get_record_absent: "get_record L rid = None \<longleftrightarrow> rid \<notin> fst ` set (records L)"
  unfolding get_record_def by (simp add: map_of_eq_None_iff)

lemma valid_decisions_eq:
  "valid_decisions = [''APPROVED'', ''REJECTED'', ''NEEDS_VERIFICATION'', ''PRIORITY'']"
  by (simp add: valid_decisions_def RecordStatus_members_def)

lemma ledger_initialize: "ledger (initialize svc) = ledger svc"
  by (simp add: initialize_def)

text \<open>A review of a record that exists, written out.\<close>

lemma review_record_present:
  assumes "get_record L rid = Some r"
  shows "review_record msp clk L rid reviewer_id decision nh =
     (Inr (''tx_'' @ format_08x (tx_counter L + 1) @ ''_'' @ tx_stamp clk),
      \<lparr>records = AList.update rid (review_update reviewer_id decision (now_iso clk) nh r) (records L),
       access_logs = access_logs L @
         [\<lparr>log_id = ''LOG_'' @ rid @ ''_'' @ str_nat (length (access_logs L)),
           log_record_id = rid, accessor_id = reviewer_id, accessor_msp = msp,
           action_type = ''REVIEW'', details = ''Decision: '' @ decision,
           log_timestamp = now_iso clk,
           tx_id = ''tx_'' @ format_08x (tx_counter L + 1) @ ''_'' @ tx_stamp clk\<rparr>],
       tx_counter = tx_counter L + 1\<rparr>)"
  using assms
  by (simp add: review_record_def get_record_def Let_def generate_tx_id_def append_log_def
      log_entry_def new_entry_def)

lemma review_record_absent:
  assumes "get_record L rid = None"
  shows "review_record msp clk L rid reviewer_id decision nh =
     (Inl (ValueError (''Record '' @ rid @ '' not found on ledger'')), L)"
  using assms by (simp add: review_record_def get_record_def)

lemma get_record_after_review:
  assumes "get_record L rid = Some r"
  shows "get_record (snd (review_record msp clk L rid reviewer_id decision nh)) rid
           = Some (review_update reviewer_id decision (now_iso clk) nh r)"
  by (simp add: review_record_present [OF assms]) (simp add: get_record_def update_conv')

lemma review_update_fields:
  "version (review_update reviewer_id decision now nh r) = version r + 1"
  "last_updated_by (review_update reviewer_id decision now nh r) = reviewer_id"
  "last_updated_at (review_update reviewer_id decision now nh r) = now"
  "current_status (review_update reviewer_id decision now nh r) = decision"
  "record_id (review_update reviewer_id decision now nh r) = record_id r"
  by (simp_all add: review_update_def Let_def split: option.splits)

lemma review_update_no_hash:
  "nh = None \<or> nh = Some [] \<Longrightarrow>
     data_hash (review_update reviewer_id decision now nh r) = data_hash r
     \<and> previous_hash (review_update reviewer_id decision now nh r) = previous_hash r"
  by (auto simp: review_update_def Let_def)

lemma review_update_hash:
  "h \<noteq> [] \<Longrightarrow>
     data_hash (review_update reviewer_id decision now (Some h) r) = h
     \<and> previous_hash (review_update reviewer_id decision now (Some h) r) = Some (data_hash r)"
  by (simp add: review_update_def Let_def)

lemma ex_approved_record:
  "get_record ex_approved ''R1'' =
     Some (ex_record\<lparr>current_status := ''APPROVED'', last_updated_by := ''u2'',
                     last_updated_at := ''2024-01-01T00:00:00+00:00'', version := 2\<rparr>)"
  unfolding ex_approved_def
  by (simp add: get_record_after_review [OF get_record_ex_ledger])
     (simp add: review_update_def ex_clock_def ex_record_def)

lemma initialize_record_absent:
  assumes "get_record L rid = None"
  shows "initialize_record msp clk L rid dhash household_id flag user_id =
     (Inr (''tx_'' @ format_08x (tx_counter L + 1) @ ''_'' @ tx_stamp clk),
      \<lparr>records = AList.update rid
         \<lparr>record_id = rid, data_hash = dhash, owner_household_id = household_id,
          current_status = ''PENDING_REVIEW'', flag_status = flag,
          created_by = user_id, created_at = now_iso clk,
          last_updated_by = user_id, last_updated_at = now_iso clk,
          version = 1, previous_hash = None\<rparr> (records L),
       access_logs = access_logs L @
         [\<lparr>log_id = ''LOG_'' @ rid @ ''_'' @ str_nat (length (access_logs L)),
           log_record_id = rid, accessor_id = user_id, accessor_msp = msp,
           action_type = ''INITIALIZE'', details = ''Record initialized on ledger'',
           log_timestamp = now_iso clk,
           tx_id = ''tx_'' @ format_08x (tx_counter L + 1) @ ''_'' @ tx_stamp clk\<rparr>],
       tx_counter = tx_counter L + 1\<rparr>)"
  using assms
  by (simp add: initialize_record_def new_record_def get_record_absent Let_def generate_tx_id_def append_log_def
      log_entry_def new_entry_def)












section \<open>Facts about runs\<close>





section \<open>Facts about the Facade's review\<close>

lemma service_review_valid:
  assumes "upper decision \<in> set valid_decisions"
  shows "service_review_record msp clk svc rid reviewer_id decision upd =
     (case review_record msp clk (ledger svc) rid reviewer_id (upper decision) (hash_of_update upd) of
        (Inl e, L') \<Rightarrow> (Inl e, (initialize svc)\<lparr>ledger := L'\<rparr>)
      | (Inr tx, L') \<Rightarrow>
          (Inr \<lparr>rr_tx_id = tx, rr_record_id = rid, new_status = upper decision,
                new_hash = hash_of_update upd\<rparr>, (initialize svc)\<lparr>ledger := L'\<rparr>))"
  using assms
  by (simp add: service_review_record_def Let_def ledger_initialize split: prod.splits sum.splits)

lemma service_review_present:
  assumes "upper decision \<in> set valid_decisions" and "get_record (ledger svc) rid = Some r"
  shows "fst (service_review_record msp clk svc rid reviewer_id decision upd) =
           Inr \<lparr>rr_tx_id = ''tx_'' @ format_08x (tx_counter (ledger svc) + 1) @ ''_'' @ tx_stamp clk,
                rr_record_id = rid, new_status = upper decision, new_hash = hash_of_update upd\<rparr>"
    and "ledger (snd (service_review_record msp clk svc rid reviewer_id decision upd)) =
           snd (review_record msp clk (ledger svc) rid reviewer_id (upper decision) (hash_of_update upd))"
  by (simp_all add: service_review_valid [OF assms(1)] review_record_present [OF assms(2)])

lemma service_review_absent:
  assumes "get_record (ledger svc) rid = None"
  shows "isl (fst (service_review_record msp clk svc rid reviewer_id decision upd))"
  by (simp add: service_review_record_def Let_def ledger_initialize
      review_record_absent [OF assms])

lemma service_review_invalid:
  assumes "upper decision \<notin> set valid_decisions"
  shows "isl (fst (service_review_record msp clk svc rid reviewer_id decision upd))"
  using assms by (simp add: service_review_record_def Let_def)

lemma get_record_ex_service: "get_record (ledger ex_service) ''R1'' = Some ex_record"
  by (simp add: ex_service_def get_record_ex_ledger)

lemma ex_constants:
  "tx_counter ex_ledger = 1" "version ex_record = 1"
  "data_hash ex_record = compute_record_hash ex_content" "previous_hash ex_record = None"
  "tx_stamp ex_clock = ''20240101000000''" "ledger ex_service = ex_ledger"
  by (simp_all add: ex_ledger_eq ex_record_def ex_clock_def ex_service_def)

section \<open>Facts about the Facade's verify\<close>


text \<open>The two ways in which the hash of a content gets onto the ledger: the create that
  an anchor makes with the hash of the record, and a review with a corrected record
  that is not empty.\<close>

lemma anchored_data_hash:
  assumes "get_record L rid = None"
  shows "map_option data_hash
           (get_record (snd (initialize_record msp clk L rid (compute_record_hash R)
                               household_id flag user_id)) rid)
         = Some (compute_record_hash R)"
  by (simp add: initialize_record_absent [OF assms]) (simp add: get_record_def update_conv')

lemma reviewed_data_hash:
  assumes "get_record (ledger svc) rid = Some r" and "upper decision \<in> set valid_decisions"
    and "R \<noteq> []"
  shows "map_option data_hash
           (get_record (ledger (snd (service_review_record msp clk svc rid reviewer_id decision
                                       (Some R)))) rid)
         = Some (compute_record_hash R)"
proof -
  have h: "hash_of_update (Some R) = Some (compute_record_hash R)"
    using assms(3) by (simp add: hash_of_update_def)
  show ?thesis
    by (simp add: service_review_present(2) [OF assms(2) assms(1)] h
        get_record_after_review [OF assms(1)] review_update_hash compute_record_hash_nonempty)
qed

section \<open>Facts about the Store with its objects\<close>

lemma map_filter_deref:
  "list_all (\<lambda>a. a < length objs) refs \<Longrightarrow> List.map_filter (deref objs) refs = map ((!) objs) refs"
  by (induction refs) (simp_all add: List.map_filter_simps deref_def)

lemma map_filter_deref_pairs:
  "list_all (\<lambda>a. a < length objs) (map snd refs) \<Longrightarrow>
     List.map_filter (\<lambda>(k, a). map_option (Pair k) (deref objs a)) refs
       = map (\<lambda>(k, a). (k, objs ! a)) refs"
  by (induction refs) (auto simp: List.map_filter_simps deref_def)

lemma snapshot_wf:
  assumes "wf_objects H"
  shows "records (snapshot H) = map (\<lambda>(k, a). (k, ledger_objects H ! a)) (records_refs H)"
    and "access_logs (snapshot H) = map ((!) (log_objects H)) (access_logs_refs H)"
    and "tx_counter (snapshot H) = obj_tx_counter H"
  using assms
  by (simp_all add: snapshot_def wf_objects_def map_filter_deref map_filter_deref_pairs)

lemma map_of_snapshot:
  assumes "wf_objects H"
  shows "get_record (snapshot H) rid = map_option ((!) (ledger_objects H)) (obj_get_record H rid)"
proof -
  have "map_of (map (\<lambda>(k, a). (k, objs ! a)) refs) rid = map_option ((!) objs) (map_of refs rid)"
    for objs :: "LedgerRecord list" and refs
    by (induction refs) auto
  then show ?thesis
    by (simp add: get_record_def obj_get_record_def snapshot_wf [OF assms])
qed

lemma obj_get_record_valid:
  assumes "wf_objects H" "obj_get_record H rid = Some a"
  shows "a < length (ledger_objects H)"
proof -
  have "(rid, a) \<in> set (records_refs H)"
    using assms(2) by (simp add: obj_get_record_def map_of_SomeD)
  then show ?thesis using assms(1) by (auto simp: wf_objects_def list_all_iff)
qed

lemma keys_snapshot:
  assumes "wf_objects H"
  shows "fst ` set (records (snapshot H)) = fst ` set (records_refs H)"
  by (force simp: snapshot_wf [OF assms])


lemma obj_append_log_snapshot:
  assumes "wf_objects H"
  shows "wf_objects (snd (obj_append_log msp clk rid accessor action det H))"
    and "fst (obj_append_log msp clk rid accessor action det H)
           = ''tx_'' @ format_08x (obj_tx_counter H + 1) @ ''_'' @ tx_stamp clk"
    and "records_refs (snd (obj_append_log msp clk rid accessor action det H)) = records_refs H"
    and "ledger_objects (snd (obj_append_log msp clk rid accessor action det H)) = ledger_objects H"
    and "snapshot (snd (obj_append_log msp clk rid accessor action det H))
           = (snapshot H)\<lparr>access_logs := access_logs (snapshot H)
                 @ [new_entry (length (access_logs (snapshot H))) rid accessor msp action det
                      (now_iso clk) (''tx_'' @ format_08x (obj_tx_counter H + 1) @ ''_'' @ tx_stamp clk)],
               tx_counter := tx_counter (snapshot H) + 1\<rparr>"
proof -
  let ?H' = "snd (obj_append_log msp clk rid accessor action det H)"
  show wf: "wf_objects ?H'"
    using assms by (auto simp: obj_append_log_def Let_def wf_objects_def list_all_iff)
  show "fst (obj_append_log msp clk rid accessor action det H)
           = ''tx_'' @ format_08x (obj_tx_counter H + 1) @ ''_'' @ tx_stamp clk"
    by (simp add: obj_append_log_def Let_def)
  show "records_refs ?H' = records_refs H" "ledger_objects ?H' = ledger_objects H"
    by (simp_all add: obj_append_log_def Let_def)
  have v: "list_all (\<lambda>a. a < length (log_objects H)) (access_logs_refs H)"
    using assms by (simp add: wf_objects_def)
  have m: "map ((!) (log_objects H @ [e])) (access_logs_refs H)
         = map ((!) (log_objects H)) (access_logs_refs H)" for e
    using v by (auto simp: list_all_iff nth_append)
  show "snapshot ?H'
           = (snapshot H)\<lparr>access_logs := access_logs (snapshot H)
                 @ [new_entry (length (access_logs (snapshot H))) rid accessor msp action det
                      (now_iso clk) (''tx_'' @ format_08x (obj_tx_counter H + 1) @ ''_'' @ tx_stamp clk)],
               tx_counter := tx_counter (snapshot H) + 1\<rparr>"
    apply (rule MockLedger.equality)
    apply (simp_all add: snapshot_wf [OF wf] snapshot_wf [OF assms])
    apply (simp_all add: obj_append_log_def Let_def m)
    done
qed


lemma update_absent: "k \<notin> fst ` set al \<Longrightarrow> AList.update k v al = al @ [(k, v)]"
  by (induction al) auto

lemma obj_initialize_record_refines:
  assumes "wf_objects H"
  shows "wf_objects (snd (obj_initialize_record msp clk H rid dhash household_id flag user_id))"
    and "fst (obj_initialize_record msp clk H rid dhash household_id flag user_id)
           = fst (initialize_record msp clk (snapshot H) rid dhash household_id flag user_id)"
    and "snapshot (snd (obj_initialize_record msp clk H rid dhash household_id flag user_id))
           = snd (initialize_record msp clk (snapshot H) rid dhash household_id flag user_id)"
proof -
  let ?new = "new_record rid dhash household_id flag user_id (now_iso clk)"
  define H1 where "H1 = H\<lparr>ledger_objects := ledger_objects H @ [?new],
                          records_refs := AList.update rid (length (ledger_objects H)) (records_refs H)\<rparr>"
  show "wf_objects (snd (obj_initialize_record msp clk H rid dhash household_id flag user_id))"
    and "fst (obj_initialize_record msp clk H rid dhash household_id flag user_id)
           = fst (initialize_record msp clk (snapshot H) rid dhash household_id flag user_id)"
    and "snapshot (snd (obj_initialize_record msp clk H rid dhash household_id flag user_id))
           = snd (initialize_record msp clk (snapshot H) rid dhash household_id flag user_id)"
  proof (atomize (full), cases "rid \<in> fst ` set (records_refs H)")
    case True
    then show "wf_objects (snd (obj_initialize_record msp clk H rid dhash household_id flag user_id))
      \<and> fst (obj_initialize_record msp clk H rid dhash household_id flag user_id)
           = fst (initialize_record msp clk (snapshot H) rid dhash household_id flag user_id)
      \<and> snapshot (snd (obj_initialize_record msp clk H rid dhash household_id flag user_id))
           = snd (initialize_record msp clk (snapshot H) rid dhash household_id flag user_id)"
      using assms keys_snapshot [OF assms]
      by (simp add: obj_initialize_record_def initialize_record_def)
  next
    case False
    have absent: "get_record (snapshot H) rid = None"
      using False keys_snapshot [OF assms] by (simp add: get_record_absent)
    have refs1: "records_refs H1 = records_refs H @ [(rid, length (ledger_objects H))]"
      using False by (simp add: H1_def update_absent)
    have valid: "\<forall>a \<in> snd ` set (records_refs H). a < length (ledger_objects H)"
      using assms by (auto simp: wf_objects_def list_all_iff)
    have wf1: "wf_objects H1"
      using assms False valid unfolding wf_objects_def refs1
      by (auto simp: H1_def list_all_iff less_Suc_eq)
    have same: "map (\<lambda>(k, a). (k, (ledger_objects H @ [?new]) ! a)) (records_refs H)
              = map (\<lambda>(k, a). (k, ledger_objects H ! a)) (records_refs H)"
      using valid by (auto simp: nth_append)
    have snap1: "snapshot H1 = (snapshot H)\<lparr>records := AList.update rid ?new (records (snapshot H))\<rparr>"
    proof -
      have k: "rid \<notin> fst ` set (records (snapshot H))"
        using False keys_snapshot [OF assms] by simp
      have "records (snapshot H1) = records (snapshot H) @ [(rid, ?new)]"
        unfolding snapshot_wf(1) [OF wf1] snapshot_wf(1) [OF assms] refs1
        using same by (simp add: H1_def)
      moreover have "access_logs (snapshot H1) = access_logs (snapshot H)"
        "tx_counter (snapshot H1) = tx_counter (snapshot H)"
        by (simp_all add: snapshot_def H1_def)
      ultimately show ?thesis
        by (intro MockLedger.equality) (simp_all add: update_absent [OF k])
    qed
    have obj: "obj_initialize_record msp clk H rid dhash household_id flag user_id
         = (Inr (fst (obj_append_log msp clk rid user_id ''INITIALIZE''
                         ''Record initialized on ledger'' H1)),
            snd (obj_append_log msp clk rid user_id ''INITIALIZE''
                         ''Record initialized on ledger'' H1))"
      using False by (simp add: obj_initialize_record_def Let_def split_def H1_def)
    have c1: "obj_tx_counter H1 = tx_counter (snapshot H)"
      by (simp add: H1_def snapshot_def)
    note app = obj_append_log_snapshot [OF wf1, of msp clk rid user_id "''INITIALIZE''"
        "''Record initialized on ledger''"]
    have val: "initialize_record msp clk (snapshot H) rid dhash household_id flag user_id
         = (Inr (''tx_'' @ format_08x (tx_counter (snapshot H) + 1) @ ''_'' @ tx_stamp clk),
            (snapshot H)\<lparr>records := AList.update rid ?new (records (snapshot H)),
               access_logs := access_logs (snapshot H)
                 @ [new_entry (length (access_logs (snapshot H))) rid user_id msp ''INITIALIZE''
                      ''Record initialized on ledger'' (now_iso clk)
                      (''tx_'' @ format_08x (tx_counter (snapshot H) + 1) @ ''_'' @ tx_stamp clk)],
               tx_counter := tx_counter (snapshot H) + 1\<rparr>)"
      by (simp add: initialize_record_absent [OF absent] new_record_def new_entry_def)
    show "wf_objects (snd (obj_initialize_record msp clk H rid dhash household_id flag user_id))
      \<and> fst (obj_initialize_record msp clk H rid dhash household_id flag user_id)
           = fst (initialize_record msp clk (snapshot H) rid dhash household_id flag user_id)
      \<and> snapshot (snd (obj_initialize_record msp clk H rid dhash household_id flag user_id))
           = snd (initialize_record msp clk (snapshot H) rid dhash household_id flag user_id)"
      unfolding obj val
      using app(1) app(2) app(5) by (simp add: c1 snap1)
  qed
qed


text \<open>Writing the object at an address is updating the entry of the key that holds it.\<close>

lemma map_list_update_refs:
  assumes "(rid, a) \<in> set refs" "distinct (map snd refs)" "distinct (map fst refs)"
    "\<forall>a' \<in> snd ` set refs. a' < length objs"
  shows "map (\<lambda>(k, a'). (k, objs[a := v] ! a')) refs
       = AList.update rid v (map (\<lambda>(k, a'). (k, objs ! a')) refs)"
  using assms
proof (induction refs)
  case Nil
  then show ?case by simp
next
  case (Cons p refs)
  obtain k b where p: "p = (k, b)" by (cases p)
  show ?case
  proof (cases "k = rid")
    case True
    then have ba: "b = a"
      using Cons.prems(1,3) p by (auto simp: image_iff)
    have "a \<notin> snd ` set refs"
      using Cons.prems(2) p ba by auto
    then have "map (\<lambda>(k, a'). (k, objs[a := v] ! a')) refs = map (\<lambda>(k, a'). (k, objs ! a')) refs"
      by (auto simp: image_iff)
    then show ?thesis
      using True ba p Cons.prems(4) by simp
  next
    case False
    then have in_refs: "(rid, a) \<in> set refs"
      using Cons.prems(1) p by auto
    then have "b \<noteq> a"
      using Cons.prems(2) p by (auto simp: image_iff)
    then show ?thesis
      using False p Cons.IH [OF in_refs] Cons.prems(2,3,4) by simp
  qed
qed

lemma obj_review_record_refines:
  assumes "wf_objects H"
  shows "wf_objects (snd (obj_review_record msp clk H rid reviewer_id decision nh))"
    and "fst (obj_review_record msp clk H rid reviewer_id decision nh)
           = fst (review_record msp clk (snapshot H) rid reviewer_id decision nh)"
    and "snapshot (snd (obj_review_record msp clk H rid reviewer_id decision nh))
           = snd (review_record msp clk (snapshot H) rid reviewer_id decision nh)"
proof (atomize (full), cases "obj_get_record H rid")
  case None
  then have "get_record (snapshot H) rid = None"
    by (simp add: map_of_snapshot [OF assms])
  then show "wf_objects (snd (obj_review_record msp clk H rid reviewer_id decision nh))
     \<and> fst (obj_review_record msp clk H rid reviewer_id decision nh)
           = fst (review_record msp clk (snapshot H) rid reviewer_id decision nh)
     \<and> snapshot (snd (obj_review_record msp clk H rid reviewer_id decision nh))
           = snd (review_record msp clk (snapshot H) rid reviewer_id decision nh)"
    using None assms
    by (simp add: review_record_absent) (simp add: obj_review_record_def obj_get_record_def)
next
  case (Some a)
  let ?r = "ledger_objects H ! a"
  let ?v = "review_update reviewer_id decision (now_iso clk) nh ?r"
  define H1 where "H1 = H\<lparr>ledger_objects := (ledger_objects H)[a := ?v]\<rparr>"
  have present: "get_record (snapshot H) rid = Some ?r"
    using Some by (simp add: map_of_snapshot [OF assms])
  have mem: "(rid, a) \<in> set (records_refs H)"
    using Some by (simp add: obj_get_record_def map_of_SomeD)
  have wf1: "wf_objects H1"
    using assms by (simp add: wf_objects_def H1_def)
  have valid: "\<forall>a' \<in> snd ` set (records_refs H). a' < length (ledger_objects H)"
    using assms by (auto simp: wf_objects_def list_all_iff)
  have snap1: "snapshot H1 = (snapshot H)\<lparr>records := AList.update rid ?v (records (snapshot H))\<rparr>"
  proof -
    have "records (snapshot H1) = AList.update rid ?v (records (snapshot H))"
      unfolding snapshot_wf(1) [OF wf1] snapshot_wf(1) [OF assms]
      using map_list_update_refs [OF mem _ _ valid, of ?v] assms
      by (simp add: H1_def wf_objects_def)
    moreover have "access_logs (snapshot H1) = access_logs (snapshot H)"
      "tx_counter (snapshot H1) = tx_counter (snapshot H)"
      by (simp_all add: snapshot_def H1_def)
    ultimately show ?thesis
      by (intro MockLedger.equality) simp_all
  qed
  have obj: "obj_review_record msp clk H rid reviewer_id decision nh
         = (Inr (fst (obj_append_log msp clk rid reviewer_id ''REVIEW'' (''Decision: '' @ decision) H1)),
            snd (obj_append_log msp clk rid reviewer_id ''REVIEW'' (''Decision: '' @ decision) H1))"
    using Some by (simp add: obj_review_record_def obj_get_record_def Let_def split_def H1_def)
  have c1: "obj_tx_counter H1 = tx_counter (snapshot H)"
    by (simp add: H1_def snapshot_def)
  note app = obj_append_log_snapshot [OF wf1, of msp clk rid reviewer_id "''REVIEW''"
      "''Decision: '' @ decision"]
  have val: "review_record msp clk (snapshot H) rid reviewer_id decision nh
         = (Inr (''tx_'' @ format_08x (tx_counter (snapshot H) + 1) @ ''_'' @ tx_stamp clk),
            (snapshot H)\<lparr>records := AList.update rid ?v (records (snapshot H)),
               access_logs := access_logs (snapshot H)
                 @ [new_entry (length (access_logs (snapshot H))) rid reviewer_id msp ''REVIEW''
                      (''Decision: '' @ decision) (now_iso clk)
                      (''tx_'' @ format_08x (tx_counter (snapshot H) + 1) @ ''_'' @ tx_stamp clk)],
               tx_counter := tx_counter (snapshot H) + 1\<rparr>)"
    by (simp add: review_record_present [OF present] new_entry_def)
  show "wf_objects (snd (obj_review_record msp clk H rid reviewer_id decision nh))
     \<and> fst (obj_review_record msp clk H rid reviewer_id decision nh)
           = fst (review_record msp clk (snapshot H) rid reviewer_id decision nh)
     \<and> snapshot (snd (obj_review_record msp clk H rid reviewer_id decision nh))
           = snd (review_record msp clk (snapshot H) rid reviewer_id decision nh)"
    unfolding obj val
    using app(1) app(2) app(5) by (simp add: c1 snap1)
qed

text \<open>The reads of the object ledger, dereferenced, are the reads of its snapshot.\<close>

lemma reads_refine:
  assumes "wf_objects H"
  shows "get_record (snapshot H) rid = service_get_ledger_record H rid"
    and "get_access_logs (snapshot H) rid = service_get_access_logs H rid"
    and "query_by_status (snapshot H) st
           = map ((!) (ledger_objects H)) (obj_query_by_status H st)"
    and "query_by_flag_status (snapshot H) fs
           = map ((!) (ledger_objects H)) (obj_query_by_flag_status H fs)"
proof -
  have vl: "list_all (\<lambda>a. a < length (log_objects H)) (access_logs_refs H)"
    and vr: "list_all (\<lambda>a. a < length (ledger_objects H)) (map snd (records_refs H))"
    using assms by (simp_all add: wf_objects_def)
  show "get_record (snapshot H) rid = service_get_ledger_record H rid"
    using obj_get_record_valid [OF assms, of rid]
    by (cases "obj_get_record H rid")
       (simp_all add: map_of_snapshot [OF assms] service_get_ledger_record_def deref_def)
  have f: "filter P (map ((!) objs) refs) = map ((!) objs) (filter (selects objs P) refs)"
    if "list_all (\<lambda>a. a < length objs) refs" for P and objs :: "'a list" and refs
    using that by (induction refs) (simp_all add: selects_def deref_def)
  have "list_all (\<lambda>a. a < length (log_objects H)) (obj_get_access_logs H rid)"
    using vl by (simp add: obj_get_access_logs_def list_all_iff)
  then show "get_access_logs (snapshot H) rid = service_get_access_logs H rid"
    by (simp add: get_access_logs_def service_get_access_logs_def snapshot_wf [OF assms]
        map_filter_deref f [OF vl] obj_get_access_logs_def)
  have m: "map snd (map (\<lambda>(k, a). (k, objs ! a)) refs) = map ((!) objs) (map snd refs)"
    for objs :: "LedgerRecord list" and refs :: "(string \<times> nat) list"
    by (induction refs) auto
  show "query_by_status (snapshot H) st = map ((!) (ledger_objects H)) (obj_query_by_status H st)"
    by (simp only: query_by_status_def obj_query_by_status_def snapshot_wf [OF assms] m f [OF vr])
  show "query_by_flag_status (snapshot H) fs
           = map ((!) (ledger_objects H)) (obj_query_by_flag_status H fs)"
    by (simp only: query_by_flag_status_def obj_query_by_flag_status_def snapshot_wf [OF assms] m
        f [OF vr])
qed


text \<open>A write through a reference that a read has returned is a write to the Store.\<close>

lemma write_record_through:
  assumes "wf_objects H" "obj_get_record H rid = Some a"
  shows "get_record (snapshot H) rid = Some (ledger_objects H ! a)"
    and "get_record (snapshot (write_record H a upd)) rid = Some (upd (ledger_objects H ! a))"
proof -
  have v: "a < length (ledger_objects H)"
    by (rule obj_get_record_valid [OF assms])
  show "get_record (snapshot H) rid = Some (ledger_objects H ! a)"
    using assms(2) by (simp add: map_of_snapshot [OF assms(1)])
  have wf': "wf_objects (write_record H a upd)"
    using assms(1) by (simp add: write_record_def wf_objects_def)
  have g: "obj_get_record (write_record H a upd) rid = Some a"
    using assms(2) by (simp add: write_record_def obj_get_record_def)
  show "get_record (snapshot (write_record H a upd)) rid = Some (upd (ledger_objects H ! a))"
    using v by (simp add: map_of_snapshot [OF wf'] g) (simp add: write_record_def)
qed

lemma query_result_is_stored:
  assumes "wf_objects H" "a \<in> snd ` set (records_refs H)"
  shows "\<exists>k. obj_get_record H k = Some a"
proof -
  obtain k where "(k, a) \<in> set (records_refs H)"
    using assms(2) by auto
  moreover have "distinct (map fst (records_refs H))"
    using assms(1) by (simp add: wf_objects_def)
  ultimately have "map_of (records_refs H) k = Some a"
    by (rule map_of_is_SomeI [rotated])
  then show ?thesis by (auto simp: obj_get_record_def)
qed

lemma write_log_through:
  assumes "wf_objects H" "b \<in> set (access_logs_refs H)"
  shows "\<exists>i < length (access_logs_refs H). access_logs_refs H ! i = b
           \<and> access_logs (snapshot (write_log H b upd))
               = (access_logs (snapshot H))[i := upd (access_logs (snapshot H) ! i)]"
proof -
  obtain i where i: "i < length (access_logs_refs H)" "access_logs_refs H ! i = b"
    using assms(2) by (auto simp: in_set_conv_nth)
  have d: "distinct (access_logs_refs H)"
    and vl: "\<forall>a \<in> set (access_logs_refs H). a < length (log_objects H)"
    using assms(1) by (simp_all add: wf_objects_def list_all_iff)
  have v: "b < length (log_objects H)"
    using vl assms(2) by simp
  have wf': "wf_objects (write_log H b upd)"
    using assms(1) by (simp add: write_log_def wf_objects_def)
  have "map ((!) ((log_objects H)[b := upd (log_objects H ! b)])) (access_logs_refs H)
      = (map ((!) (log_objects H)) (access_logs_refs H))[i := upd (log_objects H ! b)]"
  proof (rule nth_equalityI)
    show "length (map ((!) ((log_objects H)[b := upd (log_objects H ! b)])) (access_logs_refs H))
        = length ((map ((!) (log_objects H)) (access_logs_refs H))[i := upd (log_objects H ! b)])"
      by simp
  next
    fix j
    assume "j < length (map ((!) ((log_objects H)[b := upd (log_objects H ! b)])) (access_logs_refs H))"
    then have j: "j < length (access_logs_refs H)" by simp
    show "map ((!) ((log_objects H)[b := upd (log_objects H ! b)])) (access_logs_refs H) ! j
        = (map ((!) (log_objects H)) (access_logs_refs H))[i := upd (log_objects H ! b)] ! j"
    proof (cases "j = i")
      case True
      then show ?thesis using i v by simp
    next
      case False
      then have "access_logs_refs H ! j \<noteq> b"
        using d i j by (auto simp: nth_eq_iff_index_eq)
      then show ?thesis using False j by simp
    qed
  qed
  then have "access_logs (snapshot (write_log H b upd))
               = (access_logs (snapshot H))[i := upd (access_logs (snapshot H) ! i)]"
    using v i by (simp add: snapshot_wf(2) [OF wf'] snapshot_wf(2) [OF assms(1)])
      (simp add: write_log_def)
  then show ?thesis using i by blast
qed

lemma ex_objects_eq:
  "ex_objects =
     \<lparr>ledger_objects = [ex_record],
      log_objects =
        [\<lparr>log_id = ''LOG_R1_0'', log_record_id = ''R1'', accessor_id = ''u1'',
          accessor_msp = ''StateMSP'', action_type = ''INITIALIZE'',
          details = ''Record initialized on ledger'',
          log_timestamp = ''2024-01-01T00:00:00+00:00'',
          tx_id = ''tx_00000001_20240101000000''\<rparr>],
      records_refs = [(''R1'', 0)], access_logs_refs = [0], obj_tx_counter = 1\<rparr>"
  by (simp add: ex_objects_def obj_initialize_record_def obj_append_log_def ObjectLedger_init_def
      Let_def new_record_def new_entry_def ex_record_def ex_clock_def format_08x_small str_nat_small)

lemma wf_ex_objects: "wf_objects ex_objects"
  by (simp add: ex_objects_eq wf_objects_def)

lemma snapshot_ex_objects: "snapshot ex_objects = ex_ledger"
  by (simp add: ex_objects_eq ex_ledger_eq snapshot_def List.map_filter_simps deref_def)

section \<open>The claims\<close>

text \<open>
  C1. The claim: an integrity check of a record id that the Store does not hold returns
  \<open>verified = False\<close> with an error text, and still appends one \<open>VERIFY\<close> entry to the access
  log. The code returns before it logs: on the ledger that holds only \<open>R1\<close>, the check of
  \<open>R2\<close> gives the not-found result and leaves the ledger, its access log included, as
  it was.
\<close>

theorem C1_unknown_record_not_audited:
  "verify_integrity ''StateMSP'' ex_clock ex_ledger ''R2'' (compute_record_hash ex_content) ''u2''
     = (\<lparr>res_record_id = ''R2'', verified = False, on_chain_hash = None, provided_hash = None,
         res_current_status = None, res_last_updated_at = None,
         error = Some ''Record not found on ledger'',
         timestamp = ''2024-01-01T00:00:01+00:00''\<rparr>,
        ex_ledger)"
  by (simp add: ex_ledger_eq eval_defs)

text \<open>
  C2 as the claim states it fails for an empty new hash: the empty string is a supplied
  hash, but \<^verbatim>\<open>if new_hash:\<close> takes it for none. After such a review of \<open>R1\<close> the data hash is
  the one anchored and there is no previous hash.
\<close>

theorem C2_empty_hash_not_chained:
  "map_option data_hash (get_record ex_ledger ''R1'') = Some (compute_record_hash ex_content)
   \<and> map_option data_hash
        (get_record (snd (review_record ''StateMSP'' ex_clock ex_ledger ''R1'' ''u2'' ''APPROVED''
                            (Some ''''))) ''R1'')
       = Some (compute_record_hash ex_content)
   \<and> map_option previous_hash
        (get_record (snd (review_record ''StateMSP'' ex_clock ex_ledger ''R1'' ''u2'' ''APPROVED''
                            (Some ''''))) ''R1'')
       = Some None"
  by (simp add: get_record_after_review [OF get_record_ex_ledger] get_record_ex_ledger
      review_update_def ex_record_def)

text \<open>
  C2, amended. For every record in the Store, a review succeeds, adds exactly 1 to the
  version, and sets \<open>last_updated_by\<close> and \<open>last_updated_at\<close> to the reviewer and the time
  of the call. A new hash that is not empty becomes the data hash, and the data hash held
  before becomes the previous hash; without a new hash, or with the empty string, both
  hashes stay.
\<close>

theorem C2_review_updates_record:
  assumes "get_record L rid = Some r"
  shows "fst (review_record msp clk L rid reviewer_id decision nh)
           = Inr (''tx_'' @ format_08x (tx_counter L + 1) @ ''_'' @ tx_stamp clk)
     \<and> (\<exists>r'. get_record (snd (review_record msp clk L rid reviewer_id decision nh)) rid = Some r'
          \<and> version r' = version r + 1
          \<and> last_updated_by r' = reviewer_id
          \<and> last_updated_at r' = now_iso clk
          \<and> (\<forall>h. nh = Some h \<and> h \<noteq> [] \<longrightarrow>
                 previous_hash r' = Some (data_hash r) \<and> data_hash r' = h)
          \<and> (nh = None \<or> nh = Some [] \<longrightarrow>
                 previous_hash r' = previous_hash r \<and> data_hash r' = data_hash r))"
proof -
  have 1: "fst (review_record msp clk L rid reviewer_id decision nh)
             = Inr (''tx_'' @ format_08x (tx_counter L + 1) @ ''_'' @ tx_stamp clk)"
    by (simp add: review_record_present [OF assms])
  have 2: "get_record (snd (review_record msp clk L rid reviewer_id decision nh)) rid
             = Some (review_update reviewer_id decision (now_iso clk) nh r)"
    by (rule get_record_after_review [OF assms])
  show ?thesis
    unfolding 2 using 1
    by (auto simp: review_update_def Let_def split: option.splits)
qed

theorem C2_review_updates_record_witness:
  "get_record ex_ledger ''R1'' = Some ex_record
   \<and> fst (review_record ''StateMSP'' ex_clock ex_ledger ''R1'' ''u2'' ''APPROVED'' (Some ''ab''))
       = Inr ''tx_00000002_20240101000000''
   \<and> (\<exists>r'. get_record (snd (review_record ''StateMSP'' ex_clock ex_ledger ''R1'' ''u2''
                                ''APPROVED'' (Some ''ab''))) ''R1'' = Some r'
          \<and> version r' = 2 \<and> last_updated_by r' = ''u2''
          \<and> previous_hash r' = Some (compute_record_hash ex_content) \<and> data_hash r' = ''ab'')"
proof -
  have c: "tx_counter ex_ledger = 1" "version ex_record = 1"
    "data_hash ex_record = compute_record_hash ex_content"
    "tx_stamp ex_clock = ''20240101000000''"
    by (simp_all add: ex_ledger_eq ex_record_def ex_clock_def)
  show ?thesis
    using C2_review_updates_record [OF get_record_ex_ledger, of "''StateMSP''" ex_clock "''u2''"
        "''APPROVED''" "Some ''ab''"]
    by (auto simp: get_record_ex_ledger c format_08x_small)
qed










text \<open>
  C6 as the claim states it fails: the Store's review does not look at the status it is
  given. On the ledger where \<open>R1\<close> is \<open>APPROVED\<close>, a review with \<open>PENDING_REVIEW\<close> returns
  a transaction id and the record is \<open>PENDING_REVIEW\<close> again.
\<close>

theorem C6_store_accepts_pending_review:
  "map_option current_status (get_record ex_approved ''R1'') = Some ''APPROVED''
   \<and> fst (review_record ''StateMSP'' ex_clock ex_approved ''R1'' ''u3'' ''PENDING_REVIEW'' None)
       = Inr ''tx_00000003_20240101000000''
   \<and> map_option current_status
        (get_record (snd (review_record ''StateMSP'' ex_clock ex_approved ''R1'' ''u3''
                            ''PENDING_REVIEW'' None)) ''R1'')
       = Some ''PENDING_REVIEW''"
proof -
  have c: "tx_counter ex_approved = 2"
    by (simp add: ex_approved_def review_record_present [OF get_record_ex_ledger])
      (simp add: ex_ledger_eq)
  have 1: "fst (review_record ''StateMSP'' ex_clock ex_approved ''R1'' ''u3'' ''PENDING_REVIEW'' None)
       = Inr ''tx_00000003_20240101000000''"
    by (simp add: review_record_present [OF ex_approved_record] c format_08x_small ex_clock_def)
  have 2: "map_option current_status
        (get_record (snd (review_record ''StateMSP'' ex_clock ex_approved ''R1'' ''u3''
                            ''PENDING_REVIEW'' None)) ''R1'')
       = Some ''PENDING_REVIEW''"
    by (simp add: get_record_after_review [OF ex_approved_record] review_update_fields)
  show ?thesis
    using 1 2 by (simp add: ex_approved_record)
qed

text \<open>
  C6, amended. The Store's review of a record that exists succeeds for every status
  text and stores it. The restriction is the Facade's: when its review does not raise,
  the decision in capitals is one of \<open>APPROVED\<close>, \<open>REJECTED\<close>, \<open>NEEDS_VERIFICATION\<close>
  and \<open>PRIORITY\<close>, and that is the status of the record afterwards.
\<close>

theorem C6_status_checked_by_facade_only:
  "(get_record L rid = Some r \<longrightarrow>
      fst (review_record msp clk L rid reviewer_id decision nh)
        = Inr (''tx_'' @ format_08x (tx_counter L + 1) @ ''_'' @ tx_stamp clk)
      \<and> map_option current_status
           (get_record (snd (review_record msp clk L rid reviewer_id decision nh)) rid)
          = Some decision)
   \<and> (\<not> isl (fst (service_review_record msp clk svc rid reviewer_id d upd)) \<longrightarrow>
        upper d \<in> set (map status_value [APPROVED, REJECTED, NEEDS_VERIFICATION, PRIORITY])
        \<and> map_option current_status
             (get_record (ledger (snd (service_review_record msp clk svc rid reviewer_id d upd))) rid)
            = Some (upper d))"
proof (intro conjI impI)
  assume a: "get_record L rid = Some r"
  show "fst (review_record msp clk L rid reviewer_id decision nh)
        = Inr (''tx_'' @ format_08x (tx_counter L + 1) @ ''_'' @ tx_stamp clk)"
    by (simp add: review_record_present [OF a])
  show "map_option current_status
           (get_record (snd (review_record msp clk L rid reviewer_id decision nh)) rid)
          = Some decision"
    by (simp add: get_record_after_review [OF a] review_update_fields)
next
  assume s: "\<not> isl (fst (service_review_record msp clk svc rid reviewer_id d upd))"
  have v: "upper d \<in> set valid_decisions"
    using s service_review_invalid [of d msp clk svc rid reviewer_id upd] by blast
  then show "upper d \<in> set (map status_value [APPROVED, REJECTED, NEEDS_VERIFICATION, PRIORITY])"
    by (simp add: valid_decisions_eq)
  obtain r where r: "get_record (ledger svc) rid = Some r"
    using s service_review_absent [of svc rid msp clk reviewer_id d upd]
    by (cases "get_record (ledger svc) rid") auto
  show "map_option current_status
          (get_record (ledger (snd (service_review_record msp clk svc rid reviewer_id d upd))) rid)
         = Some (upper d)"
    by (simp add: service_review_present(2) [OF v r] get_record_after_review [OF r]
        review_update_fields)
qed

theorem C6_status_checked_by_facade_only_witness:
  "get_record ex_ledger ''R1'' = Some ex_record
   \<and> \<not> isl (fst (service_review_record ''StateMSP'' ex_clock ex_service ''R1'' ''u2'' ''approved'' None))
   \<and> fst (review_record ''StateMSP'' ex_clock ex_ledger ''R1'' ''u2'' ''PENDING_REVIEW'' None)
        = Inr ''tx_00000002_20240101000000''
   \<and> map_option current_status
        (get_record (snd (review_record ''StateMSP'' ex_clock ex_ledger ''R1'' ''u2''
                            ''PENDING_REVIEW'' None)) ''R1'')
       = Some ''PENDING_REVIEW''
   \<and> map_option current_status
        (get_record (ledger (snd (service_review_record ''StateMSP'' ex_clock ex_service ''R1''
                                    ''u2'' ''approved'' None))) ''R1'')
       = Some ''APPROVED''"
proof -
  have v: "upper ''approved'' \<in> set valid_decisions"
    by (simp add: upper_examples valid_decisions_eq)
  have s: "\<not> isl (fst (service_review_record ''StateMSP'' ex_clock ex_service ''R1'' ''u2''
                          ''approved'' None))"
    by (simp add: service_review_present(1) [OF v get_record_ex_service])
  show ?thesis
    using s C6_status_checked_by_facade_only [of ex_ledger "''R1''" ex_record "''StateMSP''" ex_clock
        "''u2''" "''PENDING_REVIEW''" None ex_service "''approved''" None]
    by (simp add: get_record_ex_ledger ex_constants format_08x_small upper_examples)
qed

text \<open>
  C7 as the claim states it fails: the reads of the Store return the Store's own objects.
  On the object ledger that holds \<open>R1\<close>, \<^verbatim>\<open>get_record\<close>, \<^verbatim>\<open>query_by_status\<close> and
  \<^verbatim>\<open>get_access_logs\<close> all return the address 0; a caller that assigns to fields of the
  record it was given changes the status that the Store reports for \<open>R1\<close>, and one that
  assigns to fields of the log entry changes the Store's access log.
\<close>

theorem C7_write_through_read_result:
  "obj_get_record ex_objects ''R1'' = Some 0
   \<and> obj_query_by_status ex_objects ''PENDING_REVIEW'' = [0]
   \<and> obj_get_access_logs ex_objects ''R1'' = [0]
   \<and> map_option current_status (get_record (snapshot ex_objects) ''R1'') = Some ''PENDING_REVIEW''
   \<and> map_option current_status (get_record (snapshot (write_record ex_objects 0 ex_tamper)) ''R1'')
       = Some ''APPROVED''
   \<and> map action_type (access_logs (snapshot ex_objects)) = [''INITIALIZE'']
   \<and> map action_type (access_logs (snapshot (write_log ex_objects 0 ex_tamper_log))) = [''ACCESS'']"
  by (simp add: ex_objects_eq obj_get_record_def obj_query_by_status_def obj_get_access_logs_def
      selects_def deref_def snapshot_def List.map_filter_simps get_record_def write_record_def
      write_log_def ex_tamper_def ex_tamper_log_def ex_record_def)

text \<open>
  C7, amended. The reads of the Store return references to the Store's own objects:
  \<^verbatim>\<open>get_record\<close> the \<^verbatim>\<open>LedgerRecord\<close> that \<^verbatim>\<open>records\<close> holds, the two queries and
  \<^verbatim>\<open>get_access_logs\<close> a new list of objects that \<^verbatim>\<open>records\<close> and \<^verbatim>\<open>access_logs\<close>
  hold. After a caller has changed fields of a returned record, the Store holds the
  changed record under that id; after it has changed fields of a returned log entry, the
  Store's access log has the changed entry in that place. What the Facade's
  \<^verbatim>\<open>get_ledger_record\<close> and \<^verbatim>\<open>get_access_logs\<close> return are the field values, copied.
\<close>

theorem C7_reads_return_references:
  assumes "wf_objects H"
  shows "(obj_get_record H rid = Some a \<longrightarrow>
            get_record (snapshot H) rid = Some (ledger_objects H ! a)
            \<and> get_record (snapshot (write_record H a upd)) rid = Some (upd (ledger_objects H ! a)))
     \<and> (a' \<in> set (obj_query_by_status H st) \<union> set (obj_query_by_flag_status H fs) \<longrightarrow>
            (\<exists>k. obj_get_record H k = Some a'))
     \<and> (b \<in> set (obj_get_access_logs H rid) \<longrightarrow>
            (\<exists>i < length (access_logs_refs H). access_logs_refs H ! i = b
               \<and> access_logs (snapshot (write_log H b updl))
                   = (access_logs (snapshot H))[i := updl (access_logs (snapshot H) ! i)]))
     \<and> service_get_ledger_record H rid = get_record (snapshot H) rid
     \<and> service_get_access_logs H rid = get_access_logs (snapshot H) rid"
proof (intro conjI impI)
  assume g: "obj_get_record H rid = Some a"
  show "get_record (snapshot H) rid = Some (ledger_objects H ! a)"
    by (rule write_record_through(1) [OF assms g])
  show "get_record (snapshot (write_record H a upd)) rid = Some (upd (ledger_objects H ! a))"
    by (rule write_record_through(2) [OF assms g])
next
  assume "a' \<in> set (obj_query_by_status H st) \<union> set (obj_query_by_flag_status H fs)"
  then have "a' \<in> snd ` set (records_refs H)"
    by (auto simp: obj_query_by_status_def obj_query_by_flag_status_def)
  then show "\<exists>k. obj_get_record H k = Some a'"
    by (rule query_result_is_stored [OF assms])
next
  assume "b \<in> set (obj_get_access_logs H rid)"
  then have "b \<in> set (access_logs_refs H)"
    by (simp add: obj_get_access_logs_def)
  then show "\<exists>i < length (access_logs_refs H). access_logs_refs H ! i = b
               \<and> access_logs (snapshot (write_log H b updl))
                   = (access_logs (snapshot H))[i := updl (access_logs (snapshot H) ! i)]"
    by (rule write_log_through [OF assms])
next
  show "service_get_ledger_record H rid = get_record (snapshot H) rid"
    by (simp add: reads_refine(1) [OF assms])
  show "service_get_access_logs H rid = get_access_logs (snapshot H) rid"
    by (simp add: reads_refine(2) [OF assms])
qed

theorem C7_reads_return_references_witness:
  "wf_objects ex_objects
   \<and> obj_get_record ex_objects ''R1'' = Some 0
   \<and> 0 \<in> set (obj_query_by_status ex_objects ''PENDING_REVIEW'')
   \<and> 0 \<in> set (obj_get_access_logs ex_objects ''R1'')
   \<and> get_record (snapshot ex_objects) ''R1'' = Some ex_record
   \<and> get_record (snapshot (write_record ex_objects 0 ex_tamper)) ''R1'' = Some (ex_tamper ex_record)
   \<and> (\<exists>k. obj_get_record ex_objects k = Some 0)
   \<and> (\<exists>i < length (access_logs_refs ex_objects). access_logs_refs ex_objects ! i = 0
         \<and> access_logs (snapshot (write_log ex_objects 0 ex_tamper_log))
             = (access_logs (snapshot ex_objects))
                 [i := ex_tamper_log (access_logs (snapshot ex_objects) ! i)])
   \<and> service_get_ledger_record ex_objects ''R1'' = Some ex_record"
proof -
  have h: "obj_get_record ex_objects ''R1'' = Some 0"
    "0 \<in> set (obj_query_by_status ex_objects ''PENDING_REVIEW'')"
    "0 \<in> set (obj_get_access_logs ex_objects ''R1'')"
    "ledger_objects ex_objects ! 0 = ex_record"
    by (simp_all add: ex_objects_eq obj_get_record_def obj_query_by_status_def
        obj_get_access_logs_def selects_def deref_def ex_record_def)
  show ?thesis
    using wf_ex_objects h
      C7_reads_return_references [OF wf_ex_objects, of "''R1''" 0 ex_tamper 0 "''PENDING_REVIEW''" "''NORMAL''" 0
        ex_tamper_log]
    by simp
qed

text \<open>
  C8. Creating a record under an id that the Store already holds raises the
  already-exists \<^verbatim>\<open>ValueError\<close>, and the ledger it leaves is the ledger it found: the
  stored record keeps every field and the access log gets no entry.
\<close>

theorem C8_duplicate_create_rejected:
  assumes "get_record L rid = Some r"
  shows "initialize_record msp clk L rid dhash household_id flag user_id
           = (Inl (ValueError (''Record '' @ rid @ '' already exists on ledger'')), L)"
  using get_record_present [OF assms] by (simp add: initialize_record_def new_record_def)

theorem C8_duplicate_create_rejected_witness:
  "get_record ex_ledger ''R1'' = Some ex_record
   \<and> initialize_record ''StateMSP'' ex_clock ex_ledger ''R1'' ''00'' ''H2'' ''REVIEW'' ''u2''
       = (Inl (ValueError ''Record R1 already exists on ledger''), ex_ledger)"
  using C8_duplicate_create_rejected [OF get_record_ex_ledger, of "''StateMSP''" ex_clock "''00''"
      "''H2''" "''REVIEW''" "''u2''"]
  by (simp add: get_record_ex_ledger)

text \<open>
  C9. When the decision in capitals is \<open>PENDING_REVIEW\<close>, or is none of \<open>APPROVED\<close>,
  \<open>REJECTED\<close>, \<open>NEEDS_VERIFICATION\<close> and \<open>PRIORITY\<close>, the Facade's review raises the
  invalid-decision \<^verbatim>\<open>ValueError\<close> and the ledger (records, access log and
  transaction counter) is the one before the call.
\<close>

theorem C9_invalid_decision_rejected:
  assumes "upper decision = ''PENDING_REVIEW''
           \<or> upper decision \<notin> set (map status_value [APPROVED, REJECTED, NEEDS_VERIFICATION, PRIORITY])"
  shows "fst (service_review_record msp clk svc rid reviewer_id decision updated_record)
           = Inl (ValueError (''Invalid decision: '' @ upper decision))
     \<and> ledger (snd (service_review_record msp clk svc rid reviewer_id decision updated_record))
           = ledger svc"
proof -
  have "upper decision \<notin> set valid_decisions"
    using assms by (auto simp: valid_decisions_eq)
  then show ?thesis
    by (simp add: service_review_record_def Let_def ledger_initialize)
qed

theorem C9_invalid_decision_rejected_witness:
  "upper ''pending_review'' = ''PENDING_REVIEW''
   \<and> fst (service_review_record ''StateMSP'' ex_clock ex_service ''R1'' ''u2'' ''pending_review''
            (Some ex_content))
       = Inl (ValueError ''Invalid decision: PENDING_REVIEW'')
   \<and> ledger (snd (service_review_record ''StateMSP'' ex_clock ex_service ''R1'' ''u2''
                    ''pending_review'' (Some ex_content)))
       = ex_ledger"
  using C9_invalid_decision_rejected [of "''pending_review''" "''StateMSP''" ex_clock ex_service
      "''R1''" "''u2''" "Some ex_content"]
  by (simp add: upper_examples ex_service_def)

text \<open>
  C10. For a record that exists and a valid decision, the Facade's review with the empty
  dictionary as updated record is the review with no updated record: the same outcome
  and the same service state. It succeeds with \<open>new_hash\<close> absent, the data hash and the
  previous hash of the record stay, and the version grows by 1.
\<close>

theorem C10_empty_update_is_no_update:
  assumes "get_record (ledger svc) rid = Some r"
    and "upper decision \<in> set (map status_value [APPROVED, REJECTED, NEEDS_VERIFICATION, PRIORITY])"
  shows "service_review_record msp clk svc rid reviewer_id decision (Some [])
           = service_review_record msp clk svc rid reviewer_id decision None
     \<and> fst (service_review_record msp clk svc rid reviewer_id decision (Some []))
           = Inr \<lparr>rr_tx_id = ''tx_'' @ format_08x (tx_counter (ledger svc) + 1) @ ''_'' @ tx_stamp clk,
                  rr_record_id = rid, new_status = upper decision, new_hash = None\<rparr>
     \<and> (\<exists>r'. get_record (ledger (snd (service_review_record msp clk svc rid reviewer_id decision
                                        (Some [])))) rid = Some r'
           \<and> data_hash r' = data_hash r \<and> previous_hash r' = previous_hash r
           \<and> version r' = version r + 1)"
proof -
  have v: "upper decision \<in> set valid_decisions"
    using assms(2) by (simp add: valid_decisions_eq)
  have h: "hash_of_update (Some []) = None"
    by (simp add: hash_of_update_def)
  have e: "service_review_record msp clk svc rid reviewer_id decision (Some [])
           = service_review_record msp clk svc rid reviewer_id decision None"
    by (simp add: service_review_record_def hash_of_update_def Let_def)
  show ?thesis
    using e service_review_present [OF v assms(1), of msp clk reviewer_id "Some []"]
    by (simp add: h get_record_after_review [OF assms(1)] review_update_fields
        review_update_no_hash)
qed

theorem C10_empty_update_is_no_update_witness:
  "get_record (ledger ex_service) ''R1'' = Some ex_record
   \<and> upper ''approved'' \<in> set (map status_value [APPROVED, REJECTED, NEEDS_VERIFICATION, PRIORITY])
   \<and> service_review_record ''StateMSP'' ex_clock ex_service ''R1'' ''u2'' ''approved'' (Some [])
       = service_review_record ''StateMSP'' ex_clock ex_service ''R1'' ''u2'' ''approved'' None
   \<and> fst (service_review_record ''StateMSP'' ex_clock ex_service ''R1'' ''u2'' ''approved'' (Some []))
       = Inr \<lparr>rr_tx_id = ''tx_00000002_20240101000000'', rr_record_id = ''R1'',
              new_status = ''APPROVED'', new_hash = None\<rparr>
   \<and> (\<exists>r'. get_record (ledger (snd (service_review_record ''StateMSP'' ex_clock ex_service ''R1''
                                        ''u2'' ''approved'' (Some [])))) ''R1'' = Some r'
          \<and> data_hash r' = compute_record_hash ex_content \<and> previous_hash r' = None
          \<and> version r' = 2)"
proof -
  have v: "upper ''approved'' \<in> set (map status_value [APPROVED, REJECTED, NEEDS_VERIFICATION, PRIORITY])"
    by (simp add: upper_examples)
  show ?thesis
    using v C10_empty_update_is_no_update [OF get_record_ex_service v, of "''StateMSP''" ex_clock "''u2''"]
    by (auto simp: get_record_ex_service get_record_ex_ledger ex_constants format_08x_small
        upper_examples)
qed

end
